theory Spec2Isabelle
  imports Main
begin

section \<open>The relational data model (models.py)\<close>

text \<open>
  Each table is the list of its rows, in insertion order. Integer columns are Python
  integers (\<open>int\<close>). A \<open>DateTime\<close> column holds a reading of the wall clock, kept as
  an integer count of microseconds; the readings of \<open>datetime.utcnow\<close> are inputs of
  the operations. Field names carry the prefix of their table (\<open>u_\<close>, \<open>p_\<close>, \<open>c_\<close>,
  \<open>m_\<close>), because record fields share one name space.
\<close>

record user =
  u_id :: int
  u_email :: string
  u_username :: string
  u_full_name :: string
  u_hashed_password :: string
  u_bio :: string
  u_avatar_url :: string
  u_created_at :: int

record post =
  p_id :: int
  p_title :: string
  p_content :: string
  p_post_type :: string
  p_category :: string
  p_media_url :: string
  p_author_id :: int
  p_created_at :: int
  p_updated_at :: int

record comment =
  c_id :: int
  c_content :: string
  c_author_id :: int
  c_post_id :: "int option"
  c_created_at :: int

record message =
  m_id :: int
  m_content :: string
  m_sender_id :: int
  m_receiver_id :: int
  m_created_at :: int
  m_is_read :: bool

text \<open>
  The three association tables have two foreign-key columns and no primary key or
  uniqueness constraint, so a table is a list of pairs in which a pair could repeat:
  \<open>post_likes\<close> and \<open>post_saves\<close> hold \<open>(user_id, post_id)\<close>, \<open>user_followers\<close> holds
  \<open>(follower_id, following_id)\<close>.
\<close>

record db =
  users :: "user list"
  posts :: "post list"
  comments :: "comment list"
  messages :: "message list"
  post_likes :: "(int \<times> int) list"
  post_saves :: "(int \<times> int) list"
  user_followers :: "(int \<times> int) list"

definition init_db :: db where
  "init_db = \<lparr>users = [], posts = [], comments = [], messages = [],
     post_likes = [], post_saves = [], user_followers = []\<rparr>"

text \<open>
  An integer primary key is assigned by the database on insert: one more than the
  largest key of the table, 1 in an empty table.
\<close>

definition next_id :: "int list \<Rightarrow> int" where
  "next_id ids = fold max ids 0 + 1"

subsection \<open>Relationship collections\<close>

text \<open>
  A many-to-many relationship attribute holds the users (or posts) that the rows of
  its association table relate to the owner. The foreign keys of a row name existing
  rows, and the session keeps one object for each primary key, so a collection holds
  a member once even when its pair is in the table twice. Members are identified by
  their primary key, which is how the session compares two loaded objects of one
  class.
\<close>

definition liked_by :: "db \<Rightarrow> int \<Rightarrow> int list" where
  "liked_by d pid = remdups (map fst (filter (\<lambda>r. snd r = pid) (post_likes d)))"

definition saved_by :: "db \<Rightarrow> int \<Rightarrow> int list" where
  "saved_by d pid = remdups (map fst (filter (\<lambda>r. snd r = pid) (post_saves d)))"

definition followers :: "db \<Rightarrow> int \<Rightarrow> int list" where
  "followers d uid = remdups (map fst (filter (\<lambda>r. snd r = uid) (user_followers d)))"

definition following :: "db \<Rightarrow> int \<Rightarrow> int list" where
  "following d uid = remdups (map snd (filter (\<lambda>r. fst r = uid) (user_followers d)))"

definition post_comments :: "db \<Rightarrow> int \<Rightarrow> comment list" where
  "post_comments d pid = filter (\<lambda>c. c_post_id c = Some pid) (comments d)"

text \<open>\<open>select(...).filter(...)\<close> followed by \<open>.scalars().first()\<close>.\<close>

definition find_user_by_id :: "db \<Rightarrow> int \<Rightarrow> user option" where
  "find_user_by_id d uid = find (\<lambda>u. u_id u = uid) (users d)"

definition find_user_by_username :: "db \<Rightarrow> string \<Rightarrow> user option" where
  "find_user_by_username d name = find (\<lambda>u. u_username u = name) (users d)"

definition find_post :: "db \<Rightarrow> int \<Rightarrow> post option" where
  "find_post d pid = find (\<lambda>p. p_id p = pid) (posts d)"

subsection \<open>Errors and shaped responses\<close>

text \<open>
  \<open>HTTPException status detail\<close> is the exception the endpoints raise;
  \<open>AttributeError\<close> is what \<open>self.author.to_dict()\<close> raises when the attribute is
  \<open>None\<close>; \<open>MissingGreenlet\<close> and \<open>StaleDataError\<close> are raised by the ORM, the first
  when a statement is emitted outside an \<open>await\<close>, the second when a \<open>DELETE\<close> of the
  unit of work matches another number of rows than it has members to delete.
\<close>

datatype error = HTTPException int string | AttributeError | MissingGreenlet | StaleDataError

text \<open>
  Every endpoint holds an \<open>AsyncSession\<close>. No relationship of \<open>models.py\<close> names a
  loader strategy and no query of \<open>main.py\<close> names a loader option, so a relationship
  attribute is unloaded when an endpoint or \<open>to_dict\<close> reads it, and the read itself
  has to emit the \<open>SELECT\<close> that loads it. A plain attribute read is not an \<open>await\<close>:
  on an \<open>AsyncSession\<close> it raises \<open>MissingGreenlet\<close> and loads nothing, whatever the
  rows are that the load would have found.
\<close>

definition lazy_load :: "'a \<Rightarrow> error + 'a" where
  "lazy_load related = Inl MissingGreenlet"

record user_dict =
  ud_id :: int
  ud_email :: string
  ud_username :: string
  ud_full_name :: string
  ud_bio :: string
  ud_avatar_url :: string
  ud_created_at :: int
  ud_followers_count :: nat
  ud_following_count :: nat

record post_dict =
  pd_id :: int
  pd_title :: string
  pd_content :: string
  pd_post_type :: string
  pd_category :: string
  pd_media_url :: string
  pd_author :: user_dict
  pd_created_at :: int
  pd_updated_at :: "int option"
  pd_likes_count :: nat
  pd_comments_count :: nat
  pd_is_liked :: bool
  pd_is_saved :: bool

record comment_dict =
  cd_id :: int
  cd_content :: string
  cd_author :: user_dict
  cd_post_id :: "int option"
  cd_created_at :: int

record message_dict =
  md_id :: int
  md_content :: string
  md_sender :: user_dict
  md_receiver :: user_dict
  md_created_at :: int
  md_is_read :: bool

text \<open>
  \<open>User.to_dict\<close>, \<open>Post.to_dict\<close>, \<open>Comment.to_dict\<close>, \<open>Message.to_dict\<close>. The entries
  of the dictionary are evaluated in the order they are written, and each read of a
  relationship is a \<open>lazy_load\<close>.
\<close>

definition user_to_dict :: "db \<Rightarrow> user \<Rightarrow> error + user_dict" where
  "user_to_dict d u =
     (case lazy_load (followers d (u_id u)) of Inl e \<Rightarrow> Inl e
      | Inr followers_loaded \<Rightarrow>
         (case lazy_load (following d (u_id u)) of Inl e \<Rightarrow> Inl e
          | Inr following_loaded \<Rightarrow>
              Inr \<lparr>ud_id = u_id u, ud_email = u_email u, ud_username = u_username u,
                ud_full_name = u_full_name u, ud_bio = u_bio u,
                ud_avatar_url = u_avatar_url u, ud_created_at = u_created_at u,
                ud_followers_count = length followers_loaded,
                ud_following_count = length following_loaded\<rparr>))"

text \<open>
  The related user of a foreign key (\<open>self.author\<close>, \<open>self.sender\<close>, \<open>self.receiver\<close>),
  shaped; \<open>None.to_dict()\<close> raises. A user that the session already holds is found
  without a statement, but its \<open>to_dict\<close> then reads \<open>followers\<close>, which raises the same
  exception, so the two cases need not be told apart.
\<close>

definition related_user_dict :: "db \<Rightarrow> int \<Rightarrow> error + user_dict" where
  "related_user_dict d uid =
     (case lazy_load (find_user_by_id d uid) of Inl e \<Rightarrow> Inl e
      | Inr None \<Rightarrow> Inl AttributeError
      | Inr (Some u) \<Rightarrow> user_to_dict d u)"

text \<open>
  \<open>to_dict(user_id)\<close>: the flags stay \<open>False\<close> unless \<open>user_id\<close> is truthy, that is
  neither \<open>None\<close> nor 0; only then is \<open>saved_by\<close> read.
\<close>

definition post_fields :: "post \<Rightarrow> user_dict \<Rightarrow> nat \<Rightarrow> nat \<Rightarrow> bool \<Rightarrow> bool \<Rightarrow> post_dict" where
  "post_fields p author likes_count comments_count is_liked is_saved =
     \<lparr>pd_id = p_id p, pd_title = p_title p, pd_content = p_content p,
      pd_post_type = p_post_type p, pd_category = p_category p,
      pd_media_url = p_media_url p, pd_author = author,
      pd_created_at = p_created_at p, pd_updated_at = Some (p_updated_at p),
      pd_likes_count = likes_count, pd_comments_count = comments_count,
      pd_is_liked = is_liked, pd_is_saved = is_saved\<rparr>"

definition post_to_dict :: "db \<Rightarrow> int option \<Rightarrow> post \<Rightarrow> error + post_dict" where
  "post_to_dict d viewer p =
     (case related_user_dict d (p_author_id p) of Inl e \<Rightarrow> Inl e
      | Inr author \<Rightarrow>
         (case lazy_load (liked_by d (p_id p)) of Inl e \<Rightarrow> Inl e
          | Inr likers \<Rightarrow>
             (case lazy_load (post_comments d (p_id p)) of Inl e \<Rightarrow> Inl e
              | Inr cs \<Rightarrow>
                 (case viewer of
                    None \<Rightarrow> Inr (post_fields p author (length likers) (length cs) False False)
                  | Some v \<Rightarrow>
                      if v = 0
                      then Inr (post_fields p author (length likers) (length cs) False False)
                      else (case lazy_load (saved_by d (p_id p)) of Inl e \<Rightarrow> Inl e
                            | Inr savers \<Rightarrow>
                                Inr (post_fields p author (length likers) (length cs)
                                       (v \<in> set likers) (v \<in> set savers)))))))"

definition comment_to_dict :: "db \<Rightarrow> comment \<Rightarrow> error + comment_dict" where
  "comment_to_dict d c =
     (case related_user_dict d (c_author_id c) of Inl e \<Rightarrow> Inl e
      | Inr a \<Rightarrow> Inr \<lparr>cd_id = c_id c, cd_content = c_content c, cd_author = a,
          cd_post_id = c_post_id c, cd_created_at = c_created_at c\<rparr>)"

definition message_to_dict :: "db \<Rightarrow> message \<Rightarrow> error + message_dict" where
  "message_to_dict d m =
     (case related_user_dict d (m_sender_id m) of Inl e \<Rightarrow> Inl e
      | Inr s \<Rightarrow>
         (case related_user_dict d (m_receiver_id m) of Inl e \<Rightarrow> Inl e
          | Inr r \<Rightarrow> Inr \<lparr>md_id = m_id m, md_content = m_content m, md_sender = s,
              md_receiver = r, md_created_at = m_created_at m,
              md_is_read = m_is_read m\<rparr>))"

text \<open>A list comprehension over \<open>to_dict\<close>: the first exception ends it.\<close>

fun collect :: "(error + 'a) list \<Rightarrow> error + 'a list" where
  "collect [] = Inr []"
| "collect (Inl e # rs) = Inl e"
| "collect (Inr x # rs) = (case collect rs of Inl e \<Rightarrow> Inl e | Inr xs \<Rightarrow> Inr (x # xs))"

datatype response =
    Msg string
  | Liked string nat
  | UserR user_dict
  | UsersR "user_dict list"
  | PostR post_dict
  | PostsR "post_dict list"
  | CommentR comment_dict
  | CommentsR "comment_dict list"
  | MessageR message_dict
  | MessagesR "message_dict list"

type_synonym outcome = "(error + response) \<times> db"

subsection \<open>Strings and the SQL operators of the queries\<close>

text \<open>\<open>filename.split(".")[-1]\<close>: the text after the last dot, or all of it.\<close>

fun split_on :: "char \<Rightarrow> string \<Rightarrow> string list" where
  "split_on sep [] = [[]]"
| "split_on sep (c # cs) =
     (if c = sep then [] # split_on sep cs
      else (case split_on sep cs of [] \<Rightarrow> [[c]] | w # ws \<Rightarrow> (c # w) # ws))"

definition file_extension :: "string \<Rightarrow> string" where
  "file_extension filename = last (split_on (CHR ''.'') filename)"

text \<open>
  The stored path of an upload: \<open>f"/uploads/images/{uuid.uuid4()}.{file_extension}"\<close>.
  The fresh identifier is an input; the bytes written to disk are outside the model.
\<close>

datatype upload = UploadFile (filename: string)

definition upload_url :: "string \<Rightarrow> string \<Rightarrow> upload \<Rightarrow> string" where
  "upload_url dir uuid f =
     ''/uploads/'' @ dir @ ''/'' @ uuid @ ''.'' @ file_extension (filename f)"

text \<open>
  \<open>col.ilike(pattern)\<close> compares the lower-cased column with the lower-cased pattern
  by SQL \<open>LIKE\<close>: in the pattern \<open>%\<close> stands for any run of characters and \<open>_\<close> for
  any one character, and no escape character is set. Case folding is that of the
  ASCII letters.
\<close>

definition lower_char :: "char \<Rightarrow> char" where
  "lower_char c =
     (let n = (of_char c :: nat) in if 65 \<le> n \<and> n \<le> 90 then char_of (n + 32) else c)"

definition lower :: "string \<Rightarrow> string" where
  "lower s = map lower_char s"

fun like :: "string \<Rightarrow> string \<Rightarrow> bool" where
  "like [] s = (s = [])"
| "like (p # ps) [] = (p = CHR ''%'' \<and> like ps [])"
| "like (p # ps) (c # cs) =
     (if p = CHR ''%'' then like ps (c # cs) \<or> like (p # ps) cs
      else (p = CHR ''_'' \<or> p = c) \<and> like ps cs)"

definition ilike :: "string \<Rightarrow> string \<Rightarrow> bool" where
  "ilike s pattern = like (lower pattern) (lower s)"

text \<open>
  \<open>order_by(col.asc())\<close> and \<open>order_by(col.desc())\<close>. SQL leaves the order of rows
  with equal keys open; here they keep their table order.
\<close>

definition order_by_asc :: "('a \<Rightarrow> int) \<Rightarrow> 'a list \<Rightarrow> 'a list" where
  "order_by_asc key rows = sort_key key rows"

definition order_by_desc :: "('a \<Rightarrow> int) \<Rightarrow> 'a list \<Rightarrow> 'a list" where
  "order_by_desc key rows = sort_key (\<lambda>r. - key r) rows"

text \<open>\<open>.offset(skip).limit(limit)\<close>, for non-negative \<open>skip\<close> and \<open>limit\<close>.\<close>

definition page :: "nat \<Rightarrow> nat \<Rightarrow> 'a list \<Rightarrow> 'a list" where
  "page skip limit rows = take limit (drop skip rows)"

text \<open>
  \<open>if field: row.attr = field\<close> for an \<open>Optional[str]\<close> form field: the assignment
  runs when the field is truthy, and \<open>None\<close> and \<open>""\<close> are falsy.
\<close>

definition when_truthy :: "string option \<Rightarrow> (string \<Rightarrow> 'a \<Rightarrow> 'a) \<Rightarrow> 'a \<Rightarrow> 'a" where
  "when_truthy field assign row =
     (case field of None \<Rightarrow> row | Some v \<Rightarrow> if v = [] then row else assign v row)"

section \<open>The endpoints (main.py)\<close>

text \<open>
  An endpoint takes the database, the authenticated caller (\<open>current_user\<close>, the row
  that \<open>get_current_user\<close> loaded, its relationships unloaded) and its parameters,
  and returns what it answers together with the database it leaves. An exception
  raised before \<open>commit\<close> leaves the database as it was; an exception in the shaping
  of the answer comes after \<open>commit\<close> and leaves the written database.
  Password hashing and the access token belong to \<open>auth.py\<close>: the hash is an input
  and the token is left out of the answer.
\<close>

definition user_response :: "db \<Rightarrow> user \<Rightarrow> error + response" where
  "user_response d u = (case user_to_dict d u of Inl e \<Rightarrow> Inl e | Inr ud \<Rightarrow> Inr (UserR ud))"

definition register_user :: "db \<Rightarrow> int \<Rightarrow> string \<Rightarrow> string \<Rightarrow> string \<Rightarrow> string \<Rightarrow> outcome" where
  "register_user d now email username full_name hashed_password =
     (case find (\<lambda>u. u_email u = email \<or> u_username u = username) (users d) of
        Some existing_user \<Rightarrow>
          (Inl (HTTPException 400 ''User with this email or username already exists''), d)
      | None \<Rightarrow>
          (let new_user = \<lparr>u_id = next_id (map u_id (users d)), u_email = email,
                 u_username = username, u_full_name = full_name,
                 u_hashed_password = hashed_password, u_bio = [], u_avatar_url = [],
                 u_created_at = now\<rparr>;
               d' = d\<lparr>users := users d @ [new_user]\<rparr>
           in (user_response d' new_user, d')))"

definition read_users_me :: "db \<Rightarrow> user \<Rightarrow> outcome" where
  "read_users_me d current_user = (user_response d current_user, d)"

text \<open>
  The assignments of \<open>update_user_profile\<close> to the caller's row. An upload is truthy
  whenever it is present.
\<close>

definition assign_profile_fields ::
  "string \<Rightarrow> string option \<Rightarrow> string option \<Rightarrow> upload option \<Rightarrow> user \<Rightarrow> user" where
  "assign_profile_fields uuid full_name bio avatar u =
     (let u1 = when_truthy full_name (\<lambda>v r. r\<lparr>u_full_name := v\<rparr>) u;
          u2 = when_truthy bio (\<lambda>v r. r\<lparr>u_bio := v\<rparr>) u1
      in (case avatar of None \<Rightarrow> u2
          | Some f \<Rightarrow> u2\<lparr>u_avatar_url := upload_url ''images'' uuid f\<rparr>))"

definition update_user_profile ::
  "db \<Rightarrow> user \<Rightarrow> string \<Rightarrow> string option \<Rightarrow> string option \<Rightarrow> upload option \<Rightarrow> outcome" where
  "update_user_profile d current_user uuid full_name bio avatar =
     (let d' = d\<lparr>users := map (\<lambda>u. if u_id u = u_id current_user
                                     then assign_profile_fields uuid full_name bio avatar u
                                     else u) (users d)\<rparr>
      in (user_response d' (assign_profile_fields uuid full_name bio avatar current_user),
          d'))"

definition get_user_profile :: "db \<Rightarrow> user \<Rightarrow> string \<Rightarrow> outcome" where
  "get_user_profile d current_user username =
     (case find_user_by_username d username of
        None \<Rightarrow> (Inl (HTTPException 404 ''User not found''), d)
      | Some u \<Rightarrow> (user_response d u, d))"

text \<open>
  \<open>follow_user\<close> and \<open>unfollow_user\<close> read \<open>current_user.following\<close> for their
  membership test, before they change the collection.
\<close>

definition follow_user :: "db \<Rightarrow> user \<Rightarrow> string \<Rightarrow> outcome" where
  "follow_user d current_user username =
     (if username = u_username current_user
      then (Inl (HTTPException 400 ''You cannot follow yourself''), d)
      else (case find_user_by_username d username of
              None \<Rightarrow> (Inl (HTTPException 404 ''User not found''), d)
            | Some user_to_follow \<Rightarrow>
                (case lazy_load (following d (u_id current_user)) of
                   Inl e \<Rightarrow> (Inl e, d)
                 | Inr members \<Rightarrow>
                     (Inr (Msg (''Now following '' @ username)),
                      if u_id user_to_follow \<notin> set members
                      then d\<lparr>user_followers := user_followers d @
                               [(u_id current_user, u_id user_to_follow)]\<rparr>
                      else d))))"

definition unfollow_user :: "db \<Rightarrow> user \<Rightarrow> string \<Rightarrow> outcome" where
  "unfollow_user d current_user username =
     (case find_user_by_username d username of
        None \<Rightarrow> (Inl (HTTPException 404 ''User not found''), d)
      | Some user_to_unfollow \<Rightarrow>
          (case lazy_load (following d (u_id current_user)) of
             Inl e \<Rightarrow> (Inl e, d)
           | Inr members \<Rightarrow>
               (Inr (Msg (''Unfollowed '' @ username)),
                if u_id user_to_unfollow \<in> set members
                then d\<lparr>user_followers :=
                         remove1 (u_id current_user, u_id user_to_unfollow) (user_followers d)\<rparr>
                else d)))"

text \<open>The answer of an endpoint that returns \<open>[post.to_dict(current_user.id) for ...]\<close>.\<close>

definition posts_response :: "db \<Rightarrow> user \<Rightarrow> post list \<Rightarrow> error + response" where
  "posts_response d current_user rows =
     (case collect (map (post_to_dict d (Some (u_id current_user))) rows) of
        Inl e \<Rightarrow> Inl e | Inr ds \<Rightarrow> Inr (PostsR ds))"

definition get_posts_rows ::
  "db \<Rightarrow> user \<Rightarrow> nat \<Rightarrow> nat \<Rightarrow> string option \<Rightarrow> string option \<Rightarrow> post list" where
  "get_posts_rows d current_user skip limit category filter_type =
     (let q0 = order_by_desc p_created_at (posts d);
          q1 = (case category of None \<Rightarrow> q0
                | Some c \<Rightarrow> if c \<noteq> [] \<and> c \<noteq> ''all''
                            then filter (\<lambda>p. p_category p = c) q0 else q0);
          q2 = (if filter_type = Some ''saved''
                then filter (\<lambda>p. u_id current_user \<in> set (saved_by d (p_id p))) q1
                else if filter_type = Some ''liked''
                then filter (\<lambda>p. u_id current_user \<in> set (liked_by d (p_id p))) q1
                else q1)
      in page skip limit q2)"

definition get_posts ::
  "db \<Rightarrow> user \<Rightarrow> nat \<Rightarrow> nat \<Rightarrow> string option \<Rightarrow> string option \<Rightarrow> outcome" where
  "get_posts d current_user skip limit category filter_type =
     (posts_response d current_user
        (get_posts_rows d current_user skip limit category filter_type), d)"

definition post_response :: "db \<Rightarrow> user \<Rightarrow> post \<Rightarrow> error + response" where
  "post_response d current_user p =
     (case post_to_dict d (Some (u_id current_user)) p of
        Inl e \<Rightarrow> Inl e | Inr pd \<Rightarrow> Inr (PostR pd))"

text \<open>
  \<open>create_post\<close>: both timestamp columns take their default on insert, each from its
  own call of \<open>datetime.utcnow\<close>, \<open>created_at\<close> first. A \<open>media_url\<close> of \<open>None\<close> is left
  out of the \<open>INSERT\<close>, and the column takes its default, the empty string.
\<close>

definition create_post ::
  "db \<Rightarrow> user \<Rightarrow> int \<Rightarrow> int \<Rightarrow> string \<Rightarrow> string \<Rightarrow> string \<Rightarrow> string \<Rightarrow> string \<Rightarrow> upload option
     \<Rightarrow> outcome" where
  "create_post d current_user now_created now_updated uuid title content post_type category media =
     (let media_url = (case media of None \<Rightarrow> None
            | Some f \<Rightarrow> if post_type = ''video'' then Some (upload_url ''videos'' uuid f)
                        else Some (upload_url ''images'' uuid f));
          new_post = \<lparr>p_id = next_id (map p_id (posts d)), p_title = title,
            p_content = content, p_post_type = post_type, p_category = category,
            p_media_url = (case media_url of None \<Rightarrow> [] | Some url \<Rightarrow> url),
            p_author_id = u_id current_user,
            p_created_at = now_created, p_updated_at = now_updated\<rparr>;
          d' = d\<lparr>posts := posts d @ [new_post]\<rparr>
      in (post_response d' current_user new_post, d'))"

definition get_post :: "db \<Rightarrow> user \<Rightarrow> int \<Rightarrow> outcome" where
  "get_post d current_user post_id =
     (case find_post d post_id of
        None \<Rightarrow> (Inl (HTTPException 404 ''Post not found''), d)
      | Some p \<Rightarrow> (post_response d current_user p, d))"

text \<open>
  The assignments of \<open>update_post\<close> to the post's row, the last of them
  \<open>post.updated_at = datetime.utcnow()\<close>.
\<close>

definition assign_post_fields ::
  "int \<Rightarrow> string \<Rightarrow> string option \<Rightarrow> string option \<Rightarrow> string option \<Rightarrow> upload option
     \<Rightarrow> post \<Rightarrow> post" where
  "assign_post_fields now uuid title content category media r =
     (let r1 = when_truthy title (\<lambda>v x. x\<lparr>p_title := v\<rparr>) r;
          r2 = when_truthy content (\<lambda>v x. x\<lparr>p_content := v\<rparr>) r1;
          r3 = when_truthy category (\<lambda>v x. x\<lparr>p_category := v\<rparr>) r2;
          r4 = (case media of None \<Rightarrow> r3
                | Some f \<Rightarrow>
                    if p_post_type r3 = ''video''
                    then r3\<lparr>p_media_url := upload_url ''videos'' uuid f\<rparr>
                    else r3\<lparr>p_media_url := upload_url ''images'' uuid f\<rparr>)
      in r4\<lparr>p_updated_at := now\<rparr>)"

definition update_post ::
  "db \<Rightarrow> user \<Rightarrow> int \<Rightarrow> string \<Rightarrow> int \<Rightarrow> string option \<Rightarrow> string option \<Rightarrow> string option
     \<Rightarrow> upload option \<Rightarrow> outcome" where
  "update_post d current_user now uuid post_id title content category media =
     (case find_post d post_id of
        None \<Rightarrow> (Inl (HTTPException 404 ''Post not found''), d)
      | Some p \<Rightarrow>
          if p_author_id p \<noteq> u_id current_user
          then (Inl (HTTPException 403 ''Not authorized to update this post''), d)
          else
            (let d' = d\<lparr>posts := map (\<lambda>r. if p_id r = post_id
                                           then assign_post_fields now uuid title content
                                                  category media r
                                           else r) (posts d)\<rparr>
             in (post_response d' current_user
                   (assign_post_fields now uuid title content category media p), d')))"

text \<open>
  \<open>db.delete(post)\<close> and \<open>commit\<close>: the unit of work, which runs inside the \<open>await\<close> and
  loads what it needs, deletes the post's row and, for the two relationships with a
  \<open>secondary\<close> table, one association row for each member of the collection; the
  \<open>comments\<close> relationship has no delete cascade, so the post's comments stay and
  their \<open>post_id\<close> is set to \<open>NULL\<close>. All of it is one transaction. When a pair of
  the post is in its table twice, the \<open>DELETE\<close> for the one member matches two rows,
  the flush raises \<open>StaleDataError\<close> and the transaction is rolled back.
\<close>

definition delete_post :: "db \<Rightarrow> user \<Rightarrow> int \<Rightarrow> outcome" where
  "delete_post d current_user post_id =
     (case find_post d post_id of
        None \<Rightarrow> (Inl (HTTPException 404 ''Post not found''), d)
      | Some p \<Rightarrow>
          if p_author_id p \<noteq> u_id current_user
          then (Inl (HTTPException 403 ''Not authorized to delete this post''), d)
          else if \<not> distinct (filter (\<lambda>r. snd r = post_id) (post_likes d)) \<or>
                  \<not> distinct (filter (\<lambda>r. snd r = post_id) (post_saves d))
          then (Inl StaleDataError, d)
          else (Inr (Msg ''Post deleted successfully''),
                d\<lparr>posts := filter (\<lambda>r. p_id r \<noteq> post_id) (posts d),
                  post_likes := filter (\<lambda>r. snd r \<noteq> post_id) (post_likes d),
                  post_saves := filter (\<lambda>r. snd r \<noteq> post_id) (post_saves d),
                  comments := map (\<lambda>c. if c_post_id c = Some post_id
                                        then c\<lparr>c_post_id := None\<rparr> else c) (comments d)\<rparr>))"

definition get_user_posts :: "db \<Rightarrow> user \<Rightarrow> string \<Rightarrow> nat \<Rightarrow> nat \<Rightarrow> outcome" where
  "get_user_posts d current_user username skip limit =
     (case find_user_by_username d username of
        None \<Rightarrow> (Inl (HTTPException 404 ''User not found''), d)
      | Some u \<Rightarrow>
          (posts_response d current_user
             (page skip limit
                (order_by_desc p_created_at (filter (\<lambda>p. p_author_id p = u_id u) (posts d)))),
           d))"

text \<open>
  The like and save endpoints read \<open>post.liked_by\<close> (\<open>post.saved_by\<close>) for their
  membership test: \<open>append\<close> adds one association row, \<open>remove\<close> takes the member out
  of the collection and its row out of the table, and the count is \<open>len\<close> of the
  collection after the change.
\<close>

definition like_post :: "db \<Rightarrow> user \<Rightarrow> int \<Rightarrow> outcome" where
  "like_post d current_user post_id =
     (case find_post d post_id of
        None \<Rightarrow> (Inl (HTTPException 404 ''Post not found''), d)
      | Some p \<Rightarrow>
          (case lazy_load (liked_by d (p_id p)) of
             Inl e \<Rightarrow> (Inl e, d)
           | Inr members \<Rightarrow>
               (let d' = (if u_id current_user \<notin> set members
                          then d\<lparr>post_likes := post_likes d @ [(u_id current_user, p_id p)]\<rparr>
                          else d)
                in (Inr (Liked ''Post liked'' (length (liked_by d' (p_id p)))), d'))))"

definition unlike_post :: "db \<Rightarrow> user \<Rightarrow> int \<Rightarrow> outcome" where
  "unlike_post d current_user post_id =
     (case find_post d post_id of
        None \<Rightarrow> (Inl (HTTPException 404 ''Post not found''), d)
      | Some p \<Rightarrow>
          (case lazy_load (liked_by d (p_id p)) of
             Inl e \<Rightarrow> (Inl e, d)
           | Inr members \<Rightarrow>
               (let d' = (if u_id current_user \<in> set members
                          then d\<lparr>post_likes :=
                                   remove1 (u_id current_user, p_id p) (post_likes d)\<rparr>
                          else d)
                in (Inr (Liked ''Post unliked'' (length (liked_by d' (p_id p)))), d'))))"

definition save_post :: "db \<Rightarrow> user \<Rightarrow> int \<Rightarrow> outcome" where
  "save_post d current_user post_id =
     (case find_post d post_id of
        None \<Rightarrow> (Inl (HTTPException 404 ''Post not found''), d)
      | Some p \<Rightarrow>
          (case lazy_load (saved_by d (p_id p)) of
             Inl e \<Rightarrow> (Inl e, d)
           | Inr members \<Rightarrow>
               (Inr (Msg ''Post saved''),
                if u_id current_user \<notin> set members
                then d\<lparr>post_saves := post_saves d @ [(u_id current_user, p_id p)]\<rparr>
                else d)))"

definition unsave_post :: "db \<Rightarrow> user \<Rightarrow> int \<Rightarrow> outcome" where
  "unsave_post d current_user post_id =
     (case find_post d post_id of
        None \<Rightarrow> (Inl (HTTPException 404 ''Post not found''), d)
      | Some p \<Rightarrow>
          (case lazy_load (saved_by d (p_id p)) of
             Inl e \<Rightarrow> (Inl e, d)
           | Inr members \<Rightarrow>
               (Inr (Msg ''Post unsaved''),
                if u_id current_user \<in> set members
                then d\<lparr>post_saves := remove1 (u_id current_user, p_id p) (post_saves d)\<rparr>
                else d)))"

definition get_post_comments :: "db \<Rightarrow> user \<Rightarrow> int \<Rightarrow> outcome" where
  "get_post_comments d current_user post_id =
     (case find_post d post_id of
        None \<Rightarrow> (Inl (HTTPException 404 ''Post not found''), d)
      | Some p \<Rightarrow>
          ((case lazy_load (post_comments d (p_id p)) of Inl e \<Rightarrow> Inl e
            | Inr cs \<Rightarrow>
                (case collect (map (comment_to_dict d) cs) of
                   Inl e \<Rightarrow> Inl e | Inr ds \<Rightarrow> Inr (CommentsR ds))), d))"

definition create_comment :: "db \<Rightarrow> user \<Rightarrow> int \<Rightarrow> int \<Rightarrow> string \<Rightarrow> outcome" where
  "create_comment d current_user now post_id content =
     (case find_post d post_id of
        None \<Rightarrow> (Inl (HTTPException 404 ''Post not found''), d)
      | Some p \<Rightarrow>
          (let new_comment = \<lparr>c_id = next_id (map c_id (comments d)), c_content = content,
                 c_author_id = u_id current_user, c_post_id = Some post_id,
                 c_created_at = now\<rparr>;
               d' = d\<lparr>comments := comments d @ [new_comment]\<rparr>
           in ((case comment_to_dict d' new_comment of
                  Inl e \<Rightarrow> Inl e | Inr c \<Rightarrow> Inr (CommentR c)), d')))"

definition get_messages :: "db \<Rightarrow> user \<Rightarrow> outcome" where
  "get_messages d current_user =
     ((case collect (map (message_to_dict d)
               (order_by_desc m_created_at
                  (filter (\<lambda>m. m_sender_id m = u_id current_user \<or>
                                m_receiver_id m = u_id current_user) (messages d)))) of
         Inl e \<Rightarrow> Inl e | Inr ms \<Rightarrow> Inr (MessagesR ms)), d)"

text \<open>The filter of \<open>get_conversation\<close>, and the body of its marking loop.\<close>

definition in_conversation :: "int \<Rightarrow> int \<Rightarrow> message \<Rightarrow> bool" where
  "in_conversation me other m =
     ((m_sender_id m = me \<and> m_receiver_id m = other) \<or>
      (m_sender_id m = other \<and> m_receiver_id m = me))"

definition mark_read :: "int \<Rightarrow> message \<Rightarrow> message" where
  "mark_read me m =
     (if m_receiver_id m = me \<and> \<not> m_is_read m then m\<lparr>m_is_read := True\<rparr> else m)"

definition get_conversation :: "db \<Rightarrow> user \<Rightarrow> int \<Rightarrow> outcome" where
  "get_conversation d current_user user_id =
     (let me = u_id current_user;
          selected = order_by_asc m_created_at
                       (filter (in_conversation me user_id) (messages d));
          d' = d\<lparr>messages := map (\<lambda>m. if in_conversation me user_id m
                                         then mark_read me m else m) (messages d)\<rparr>
      in ((case collect (map (message_to_dict d') (map (mark_read me) selected)) of
             Inl e \<Rightarrow> Inl e | Inr ms \<Rightarrow> Inr (MessagesR ms)), d'))"

definition send_message :: "db \<Rightarrow> user \<Rightarrow> int \<Rightarrow> int \<Rightarrow> string \<Rightarrow> outcome" where
  "send_message d current_user now user_id content =
     (case find_user_by_id d user_id of
        None \<Rightarrow> (Inl (HTTPException 404 ''User not found''), d)
      | Some receiver \<Rightarrow>
          (let new_message = \<lparr>m_id = next_id (map m_id (messages d)), m_content = content,
                 m_sender_id = u_id current_user, m_receiver_id = user_id,
                 m_created_at = now, m_is_read = False\<rparr>;
               d' = d\<lparr>messages := messages d @ [new_message]\<rparr>
           in ((case message_to_dict d' new_message of
                  Inl e \<Rightarrow> Inl e | Inr m \<Rightarrow> Inr (MessageR m)), d')))"

text \<open>\<open>search\<close>: the pattern is \<open>f"%{q}%"\<close>, the query text between two \<open>%\<close>.\<close>

definition search_posts_rows :: "db \<Rightarrow> string \<Rightarrow> nat \<Rightarrow> nat \<Rightarrow> post list" where
  "search_posts_rows d q skip limit =
     page skip limit
       (order_by_desc p_created_at
          (filter (\<lambda>p. ilike (p_title p) (''%'' @ q @ ''%'') \<or>
                        ilike (p_content p) (''%'' @ q @ ''%'')) (posts d)))"

definition search :: "db \<Rightarrow> user \<Rightarrow> string \<Rightarrow> string \<Rightarrow> nat \<Rightarrow> nat \<Rightarrow> outcome" where
  "search d current_user q search_type skip limit =
     (if search_type = ''users''
      then ((case collect (map (user_to_dict d)
                (page skip limit
                   (filter (\<lambda>u. ilike (u_username u) (''%'' @ q @ ''%'') \<or>
                                 ilike (u_full_name u) (''%'' @ q @ ''%'')) (users d)))) of
               Inl e \<Rightarrow> Inl e | Inr us \<Rightarrow> Inr (UsersR us)), d)
      else (posts_response d current_user (search_posts_rows d q skip limit), d))"

subsection \<open>Requests\<close>

text \<open>
  One constructor for each endpoint, with the caller, the clock readings and the
  fresh identifier it consumes, and its parameters. \<open>/token\<close> only reads the
  database through \<open>auth.py\<close> and is not among them.
\<close>

datatype request =
    RegisterUser int string string string string
  | ReadUsersMe user
  | UpdateUserProfile user string "string option" "string option" "upload option"
  | GetUserProfile user string
  | FollowUser user string
  | UnfollowUser user string
  | GetPosts user nat nat "string option" "string option"
  | CreatePost user int int string string string string string "upload option"
  | GetPost user int
  | UpdatePost user int string int "string option" "string option" "string option"
      "upload option"
  | DeletePost user int
  | GetUserPosts user string nat nat
  | LikePost user int
  | UnlikePost user int
  | SavePost user int
  | UnsavePost user int
  | GetPostComments user int
  | CreateComment user int int string
  | GetMessages user
  | GetConversation user int
  | SendMessage user int int string
  | Search user string string nat nat

fun handle :: "db \<Rightarrow> request \<Rightarrow> outcome" where
  "handle d (RegisterUser now e n f h) = register_user d now e n f h"
| "handle d (ReadUsersMe cu) = read_users_me d cu"
| "handle d (UpdateUserProfile cu uuid f b a) = update_user_profile d cu uuid f b a"
| "handle d (GetUserProfile cu n) = get_user_profile d cu n"
| "handle d (FollowUser cu n) = follow_user d cu n"
| "handle d (UnfollowUser cu n) = unfollow_user d cu n"
| "handle d (GetPosts cu skip limit c ft) = get_posts d cu skip limit c ft"
| "handle d (CreatePost cu tc tu uuid t c pt cat m) = create_post d cu tc tu uuid t c pt cat m"
| "handle d (GetPost cu pid) = get_post d cu pid"
| "handle d (UpdatePost cu now uuid pid t c cat m) = update_post d cu now uuid pid t c cat m"
| "handle d (DeletePost cu pid) = delete_post d cu pid"
| "handle d (GetUserPosts cu n skip limit) = get_user_posts d cu n skip limit"
| "handle d (LikePost cu pid) = like_post d cu pid"
| "handle d (UnlikePost cu pid) = unlike_post d cu pid"
| "handle d (SavePost cu pid) = save_post d cu pid"
| "handle d (UnsavePost cu pid) = unsave_post d cu pid"
| "handle d (GetPostComments cu pid) = get_post_comments d cu pid"
| "handle d (CreateComment cu now pid c) = create_comment d cu now pid c"
| "handle d (GetMessages cu) = get_messages d cu"
| "handle d (GetConversation cu uid) = get_conversation d cu uid"
| "handle d (SendMessage cu now uid c) = send_message d cu now uid c"
| "handle d (Search cu q st skip limit) = search d cu q st skip limit"

text \<open>A run of requests, each on the database the one before left.\<close>

fun run :: "db \<Rightarrow> request list \<Rightarrow> db" where
  "run d [] = d"
| "run d (r # rs) = run (snd (handle d r)) rs"


subsection \<open>The scenario of the specification\<close>

text \<open>
  Two registered users, \<open>alice\<close> and \<open>bob\<close>, and one post of \<open>alice\<close> titled "Hello"
  in category \<open>sports\<close>.
\<close>

definition alice :: user where
  "alice = \<lparr>u_id = 1, u_email = ''alice@example.org'', u_username = ''alice'',
     u_full_name = ''Alice'', u_hashed_password = ''h1'', u_bio = [], u_avatar_url = [],
     u_created_at = 10\<rparr>"

definition bob :: user where
  "bob = \<lparr>u_id = 2, u_email = ''bob@example.org'', u_username = ''bob'',
     u_full_name = ''Bob'', u_hashed_password = ''h2'', u_bio = [], u_avatar_url = [],
     u_created_at = 20\<rparr>"

definition hello_post :: post where
  "hello_post = \<lparr>p_id = 1, p_title = ''Hello'', p_content = ''First post'',
     p_post_type = ''blog'', p_category = ''sports'', p_media_url = [], p_author_id = 1,
     p_created_at = 30, p_updated_at = 30\<rparr>"

definition scenario_db :: db where
  "scenario_db = init_db\<lparr>users := [alice, bob], posts := [hello_post]\<rparr>"

text \<open>The scenario after \<open>bob\<close> has liked the post.\<close>

definition liked_db :: db where
  "liked_db = scenario_db\<lparr>post_likes := [(2, 1)]\<rparr>"

subsection \<open>The uniqueness invariant of the edge sets\<close>

text \<open>
  No association table holds a pair twice. The tables declare no constraint for it;
  no endpoint adds a pair that its collection already holds.
\<close>

definition unique_edges :: "db \<Rightarrow> bool" where
  "unique_edges d \<longleftrightarrow>
     distinct (post_likes d) \<and> distinct (post_saves d) \<and> distinct (user_followers d)"

text \<open>
  The scenario of the messages: \<open>alice\<close> has sent "hi" to \<open>bob\<close>, then \<open>bob\<close> has sent
  "yo" to \<open>alice\<close>, and neither has opened the conversation.
\<close>

definition hi_message :: message where
  "hi_message = \<lparr>m_id = 1, m_content = ''hi'', m_sender_id = 1, m_receiver_id = 2,
     m_created_at = 50, m_is_read = False\<rparr>"

definition yo_message :: message where
  "yo_message = \<lparr>m_id = 2, m_content = ''yo'', m_sender_id = 2, m_receiver_id = 1,
     m_created_at = 60, m_is_read = False\<rparr>"

definition chat_db :: db where
  "chat_db = scenario_db\<lparr>messages := [hi_message, yo_message]\<rparr>"

subsection \<open>Substring search, in the words of the specification\<close>

text \<open>
  \<open>contains q s\<close>: the text \<open>q\<close> occurs in \<open>s\<close> as a run of adjacent characters.
  \<open>icontains\<close> is the same when the case of the ASCII letters is ignored, and a query
  is \<open>wildcard_free\<close> when neither of the two characters that SQL \<open>LIKE\<close> reads as
  wildcards occurs in it.
\<close>

fun contains :: "string \<Rightarrow> string \<Rightarrow> bool" where
  "contains q [] = (q = [])"
| "contains q (c # cs) = (take (length q) (c # cs) = q \<or> contains q cs)"

definition icontains :: "string \<Rightarrow> string \<Rightarrow> bool" where
  "icontains q s = contains (lower q) (lower s)"

definition wildcard_free :: "string \<Rightarrow> bool" where
  "wildcard_free q \<longleftrightarrow> CHR ''%'' \<notin> set q \<and> CHR ''_'' \<notin> set q"

section \<open>Properties\<close>

lemma scenario_built:
  "run init_db [RegisterUser 10 ''alice@example.org'' ''alice'' ''Alice'' ''h1'',
      RegisterUser 20 ''bob@example.org'' ''bob'' ''Bob'' ''h2'',
      CreatePost alice 30 30 ''id'' ''Hello'' ''First post'' ''blog'' ''sports'' None]
     = scenario_db"
  by (simp add: scenario_db_def init_db_def register_user_def create_post_def next_id_def
      alice_def bob_def hello_post_def Let_def)

subsection \<open>Following\<close>

text \<open>
  C2. A caller who asks to follow their own username is refused with status 400
  before anything is looked up or written: the answer is the error and the database,
  with its follow table, is the one the request found.
\<close>

theorem follow_self_rejected:
  "follow_user d current_user (u_username current_user) =
     (Inl (HTTPException 400 ''You cannot follow yourself''), d)"
  by (simp add: follow_user_def)

subsection \<open>Updating a post\<close>

text \<open>
  C4. When the post exists and the caller is not its author, \<open>update_post\<close> answers
  403 and leaves the database, and so every field of the post, as it was.
\<close>

theorem update_post_forbidden:
  assumes "find_post d post_id = Some p" and "p_author_id p \<noteq> u_id current_user"
  shows "update_post d current_user now uuid post_id title content category media =
           (Inl (HTTPException 403 ''Not authorized to update this post''), d)"
  using assms by (simp add: update_post_def)

theorem update_post_forbidden_witness:
  "update_post scenario_db bob 40 ''id'' 1 (Some ''Hi'') None None None =
     (Inl (HTTPException 403 ''Not authorized to update this post''), scenario_db)"
  using update_post_forbidden
    [of scenario_db 1 hello_post bob 40 "''id''" "Some ''Hi''" None None None]
  by (simp add: find_post_def scenario_db_def init_db_def hello_post_def bob_def)

subsection \<open>Liking and unliking\<close>


text \<open>
  For an existing post both endpoints stop at their membership test: the read of
  \<open>post.liked_by\<close> raises, nothing is appended or removed, and no count is answered.
\<close>

lemma like_post_raises:
  "find_post d post_id = Some p \<Longrightarrow> like_post d current_user post_id = (Inl MissingGreenlet, d)"
  by (simp add: like_post_def lazy_load_def)

lemma unlike_post_raises:
  "find_post d post_id = Some p \<Longrightarrow> unlike_post d current_user post_id = (Inl MissingGreenlet, d)"
  by (simp add: unlike_post_def lazy_load_def)

text \<open>
  C1, at the scenario: \<open>bob\<close> likes the post of \<open>alice\<close> and then unlikes it. Each call
  raises \<open>MissingGreenlet\<close> in place of the count (1, then 0) and leaves the
  database as it found it, so no like edge is ever written; a database in which
  \<open>bob\<close> already likes the post is left alone in the same way.
\<close>

theorem like_post_missing_greenlet:
  "find_post scenario_db 1 = Some hello_post
   \<and> like_post scenario_db bob 1 = (Inl MissingGreenlet, scenario_db)
   \<and> unlike_post (snd (like_post scenario_db bob 1)) bob 1 = (Inl MissingGreenlet, scenario_db)
   \<and> fst (like_post scenario_db bob 1) \<noteq> Inr (Liked ''Post liked'' 1)
   \<and> fst (unlike_post (snd (like_post scenario_db bob 1)) bob 1) \<noteq> Inr (Liked ''Post unliked'' 0)
   \<and> post_likes (snd (like_post scenario_db bob 1)) = []
   \<and> like_post liked_db bob 1 = (Inl MissingGreenlet, liked_db)
   \<and> unlike_post liked_db bob 1 = (Inl MissingGreenlet, liked_db)"
  by (simp add: like_post_def unlike_post_def lazy_load_def find_post_def scenario_db_def
      liked_db_def init_db_def hello_post_def)

subsection \<open>Following twice\<close>

text \<open>
  For another, existing user \<open>follow_user\<close> stops at the read of
  \<open>current_user.following\<close>: it raises and writes no edge.
\<close>

lemma follow_user_raises:
  "username \<noteq> u_username current_user \<Longrightarrow> find_user_by_username d username = Some b \<Longrightarrow>
   follow_user d current_user username = (Inl MissingGreenlet, d)"
  by (simp add: follow_user_def lazy_load_def)

text \<open>
  C3, at the scenario: \<open>alice\<close> follows \<open>bob\<close> twice. Both calls raise
  \<open>MissingGreenlet\<close>, and after them the follow table holds the edge from \<open>alice\<close> to
  \<open>bob\<close> not once but not at all.
\<close>

theorem follow_user_missing_greenlet:
  "find_user_by_username scenario_db ''bob'' = Some bob
   \<and> follow_user scenario_db alice ''bob'' = (Inl MissingGreenlet, scenario_db)
   \<and> follow_user (snd (follow_user scenario_db alice ''bob'')) alice ''bob''
       = (Inl MissingGreenlet, scenario_db)
   \<and> count_list (user_followers
         (snd (follow_user (snd (follow_user scenario_db alice ''bob'')) alice ''bob'')))
       (u_id alice, u_id bob) = 0"
  by (simp add: follow_user_def lazy_load_def find_user_by_username_def scenario_db_def
      init_db_def alice_def bob_def)

subsection \<open>The uniqueness invariant is kept\<close>

text \<open>
  Every endpoint keeps all three association tables free of repeated pairs, so the
  invariant holds in every state a run of requests reaches from the empty database.
\<close>

lemma handle_unique_edges: "unique_edges d \<Longrightarrow> unique_edges (snd (handle d r))"
proof (cases r)
  case (FollowUser cu n)
  then show "unique_edges d \<Longrightarrow> ?thesis"
    by (auto simp: unique_edges_def follow_user_def lazy_load_def split: option.splits)
next
  case (UnfollowUser cu n)
  then show "unique_edges d \<Longrightarrow> ?thesis"
    by (auto simp: unique_edges_def unfollow_user_def lazy_load_def split: option.splits)
next
  case (LikePost cu pid)
  then show "unique_edges d \<Longrightarrow> ?thesis"
    by (auto simp: unique_edges_def like_post_def lazy_load_def split: option.splits)
next
  case (UnlikePost cu pid)
  then show "unique_edges d \<Longrightarrow> ?thesis"
    by (auto simp: unique_edges_def unlike_post_def lazy_load_def split: option.splits)
next
  case (SavePost cu pid)
  then show "unique_edges d \<Longrightarrow> ?thesis"
    by (auto simp: unique_edges_def save_post_def lazy_load_def split: option.splits)
next
  case (UnsavePost cu pid)
  then show "unique_edges d \<Longrightarrow> ?thesis"
    by (auto simp: unique_edges_def unsave_post_def lazy_load_def split: option.splits)
qed (auto simp: unique_edges_def register_user_def read_users_me_def update_user_profile_def
       get_user_profile_def get_posts_def create_post_def get_post_def update_post_def
       delete_post_def get_user_posts_def get_post_comments_def create_comment_def
       get_messages_def get_conversation_def send_message_def search_def Let_def
       split: option.splits)

lemma run_unique_edges: "unique_edges d \<Longrightarrow> unique_edges (run d rs)"
  by (induction rs arbitrary: d) (simp_all add: handle_unique_edges)

lemma reachable_unique_edges: "unique_edges (run init_db rs)"
  by (rule run_unique_edges) (simp add: unique_edges_def init_db_def)

subsection \<open>Deleting a post\<close>

lemma collect_map_Inr:
  "collect (map f rows) = Inr ds \<Longrightarrow> list_all2 (\<lambda>r d. f r = Inr d) rows ds"
proof (induction rows arbitrary: ds)
  case Nil
  then show ?case by simp
next
  case (Cons r rows)
  then show ?case by (cases "f r") (auto split: sum.splits)
qed

lemma post_to_dict_id: "post_to_dict d v p = Inr pd \<Longrightarrow> pd_id pd = p_id p"
  by (auto simp: post_to_dict_def post_fields_def split: sum.splits option.splits if_splits)

lemma posts_response_ids:
  assumes "posts_response d cu rows = Inr (PostsR ds)"
  shows "map pd_id ds = map p_id rows"
proof -
  from assms have "collect (map (post_to_dict d (Some (u_id cu))) rows) = Inr ds"
    by (auto simp: posts_response_def split: sum.splits)
  then have "list_all2 (\<lambda>r pd. post_to_dict d (Some (u_id cu)) r = Inr pd) rows ds"
    by (rule collect_map_Inr)
  then have "list_all2 (\<lambda>r pd. pd_id pd = p_id r) rows ds"
    by (rule list_all2_mono) (simp add: post_to_dict_id)
  then show ?thesis
    by (induction rows ds rule: list_all2_induct) simp_all
qed

lemma set_page: "set (page skip limit rows) \<subseteq> set rows"
  unfolding page_def by (meson set_take_subset set_drop_subset subset_trans)

lemma set_order_by_desc [simp]: "set (order_by_desc k rows) = set rows"
  by (simp add: order_by_desc_def)

lemma set_order_by_asc [simp]: "set (order_by_asc k rows) = set rows"
  by (simp add: order_by_asc_def)

lemma get_posts_rows_subset:
  "set (get_posts_rows d cu skip limit category filter_type) \<subseteq> set (posts d)"
proof -
  have "set (get_posts_rows d cu skip limit category filter_type)
      \<subseteq> set (order_by_desc p_created_at (posts d))"
    unfolding get_posts_rows_def Let_def
    by (rule subset_trans [OF set_page]) (auto split: option.splits)
  then show ?thesis by simp
qed

text \<open>
  On a table that holds a pair of the post twice the deletion fails as a whole: the
  answer is \<open>StaleDataError\<close> and the database is the one the request found.
\<close>

lemma delete_post_stale:
  assumes "find_post d post_id = Some p" and "p_author_id p = u_id current_user"
    and "\<not> distinct (filter (\<lambda>r. snd r = post_id) (post_likes d)) \<or>
         \<not> distinct (filter (\<lambda>r. snd r = post_id) (post_saves d))"
  shows "delete_post d current_user post_id = (Inl StaleDataError, d)"
  using assms by (auto simp: delete_post_def)

text \<open>
  C5. On a database whose edge sets hold no pair twice, when the post exists and the
  caller is its author, \<open>delete_post\<close> answers success and leaves one database in
  which: the rows of \<open>posts\<close> are the former ones without the post, in their order;
  the rows of \<open>post_likes\<close> and of \<open>post_saves\<close> are the former ones without those that
  name the post; users, messages and follow edges are untouched and the comments
  only lose their reference to the post. So the post is no longer found, no like or
  save edge names it, and no query or answer of \<open>get_posts\<close>, for any viewer, page,
  category and filter (\<open>saved\<close> and \<open>liked\<close> among them), contains it.
\<close>

theorem delete_post_cascade:
  assumes "find_post d post_id = Some p" and "p_author_id p = u_id current_user"
    and "unique_edges d"
  shows "fst (delete_post d current_user post_id) = Inr (Msg ''Post deleted successfully'')
       \<and> posts (snd (delete_post d current_user post_id))
           = filter (\<lambda>r. p_id r \<noteq> post_id) (posts d)
       \<and> post_likes (snd (delete_post d current_user post_id))
           = filter (\<lambda>r. snd r \<noteq> post_id) (post_likes d)
       \<and> post_saves (snd (delete_post d current_user post_id))
           = filter (\<lambda>r. snd r \<noteq> post_id) (post_saves d)
       \<and> users (snd (delete_post d current_user post_id)) = users d
       \<and> messages (snd (delete_post d current_user post_id)) = messages d
       \<and> user_followers (snd (delete_post d current_user post_id)) = user_followers d
       \<and> comments (snd (delete_post d current_user post_id))
           = map (\<lambda>c. if c_post_id c = Some post_id then c\<lparr>c_post_id := None\<rparr> else c)
               (comments d)
       \<and> find_post (snd (delete_post d current_user post_id)) post_id = None
       \<and> post_id \<notin> snd ` set (post_likes (snd (delete_post d current_user post_id)))
       \<and> post_id \<notin> snd ` set (post_saves (snd (delete_post d current_user post_id)))
       \<and> (\<forall>viewer skip limit category filter_type.
            post_id \<notin> p_id ` set (get_posts_rows (snd (delete_post d current_user post_id))
                                     viewer skip limit category filter_type))
       \<and> (\<forall>viewer skip limit category filter_type ds.
            fst (get_posts (snd (delete_post d current_user post_id)) viewer skip limit
                   category filter_type) = Inr (PostsR ds)
            \<longrightarrow> post_id \<notin> pd_id ` set ds)"
proof -
  let ?d' = "d\<lparr>posts := filter (\<lambda>r. p_id r \<noteq> post_id) (posts d),
                post_likes := filter (\<lambda>r. snd r \<noteq> post_id) (post_likes d),
                post_saves := filter (\<lambda>r. snd r \<noteq> post_id) (post_saves d),
                comments := map (\<lambda>c. if c_post_id c = Some post_id
                                      then c\<lparr>c_post_id := None\<rparr> else c) (comments d)\<rparr>"
  have dl: "distinct (filter (\<lambda>r. snd r = post_id) (post_likes d))"
    and ds: "distinct (filter (\<lambda>r. snd r = post_id) (post_saves d))"
    using assms(3) by (simp_all add: unique_edges_def)
  have del: "delete_post d current_user post_id = (Inr (Msg ''Post deleted successfully''), ?d')"
    using assms(1,2) dl ds by (simp add: delete_post_def)
  have gone: "post_id \<notin> p_id ` set (posts ?d')" by auto
  have nf: "find_post ?d' post_id = None"
    by (simp add: find_post_def find_None_iff)
  have rows: "post_id \<notin> p_id ` set (get_posts_rows ?d' viewer skip limit category filter_type)"
    for viewer skip limit category filter_type
    using gone get_posts_rows_subset [of ?d' viewer skip limit category filter_type] by blast
  have listing: "post_id \<notin> pd_id ` set ds"
    if "fst (get_posts ?d' viewer skip limit category filter_type) = Inr (PostsR ds)"
    for viewer skip limit category filter_type ds
  proof -
    from that have "map pd_id ds =
        map p_id (get_posts_rows ?d' viewer skip limit category filter_type)"
      by (simp add: get_posts_def posts_response_ids)
    then have "pd_id ` set ds =
        p_id ` set (get_posts_rows ?d' viewer skip limit category filter_type)"
      by (metis set_map)
    then show ?thesis using rows by simp
  qed
  show ?thesis unfolding del using nf rows listing by auto
qed

theorem delete_post_cascade_witness:
  "fst (delete_post liked_db alice 1) = Inr (Msg ''Post deleted successfully'')
   \<and> posts (snd (delete_post liked_db alice 1)) = []
   \<and> post_likes liked_db = [(2, 1)]
   \<and> post_likes (snd (delete_post liked_db alice 1)) = []
   \<and> users (snd (delete_post liked_db alice 1)) = [alice, bob]
   \<and> get_posts_rows liked_db bob 0 20 None (Some ''liked'') = [hello_post]
   \<and> get_posts_rows (snd (delete_post liked_db alice 1)) bob 0 20 None (Some ''liked'') = []
   \<and> fst (get_posts (snd (delete_post liked_db alice 1)) bob 0 20 None (Some ''liked''))
       = Inr (PostsR [])"
  using delete_post_cascade [of liked_db 1 hello_post alice]
  by (simp add: liked_db_def find_post_def scenario_db_def init_db_def hello_post_def alice_def
      bob_def unique_edges_def delete_post_def get_posts_def get_posts_rows_def
      posts_response_def order_by_desc_def page_def saved_by_def liked_by_def Let_def)

subsection \<open>Empty fields in the update endpoints\<close>








subsection \<open>The read flag of a message\<close>

lemma chat_built:
  "run scenario_db [SendMessage alice 50 2 ''hi'', SendMessage bob 60 1 ''yo''] = chat_db"
  by (simp add: chat_db_def hi_message_def yo_message_def scenario_db_def init_db_def
      send_message_def find_user_by_id_def next_id_def alice_def bob_def Let_def)

text \<open>
  Only \<open>send_message\<close> and \<open>get_conversation\<close> write the table of messages. The one
  appends a message that is unread; the other passes the messages of the
  conversation through the body of its marking loop.
\<close>

lemma messages_unchanged:
  assumes "\<And>cu now uid c. r \<noteq> SendMessage cu now uid c"
    and "\<And>cu uid. r \<noteq> GetConversation cu uid"
  shows "messages (snd (handle d r)) = messages d"
  using assms
  by (cases r)
    (auto simp: register_user_def read_users_me_def update_user_profile_def
       get_user_profile_def follow_user_def unfollow_user_def get_posts_def create_post_def
       get_post_def update_post_def delete_post_def get_user_posts_def like_post_def
       unlike_post_def save_post_def unsave_post_def get_post_comments_def
       create_comment_def get_messages_def search_def Let_def
       split: option.splits sum.splits)

lemma send_message_messages:
  "messages (snd (send_message d cu now uid c)) = messages d \<or>
   (\<exists>m. messages (snd (send_message d cu now uid c)) = messages d @ [m] \<and> \<not> m_is_read m)"
  by (simp add: send_message_def Let_def split: option.splits)

lemma get_conversation_messages:
  "messages (snd (get_conversation d cu other)) =
     map (\<lambda>m. if in_conversation (u_id cu) other m then mark_read (u_id cu) m else m)
       (messages d)"
  by (simp add: get_conversation_def Let_def)

lemma mark_read_cases:
  "mark_read me m = m \<or>
   (mark_read me m = m\<lparr>m_is_read := True\<rparr> \<and> m_receiver_id m = me \<and> \<not> m_is_read m)"
  by (simp add: mark_read_def)

lemma handle_is_read:
  "length (messages d) \<le> length (messages (snd (handle d r)))
   \<and> (\<forall>i < length (messages d).
        messages (snd (handle d r)) ! i =
          (messages d ! i)\<lparr>m_is_read := m_is_read (messages (snd (handle d r)) ! i)\<rparr>
        \<and> (m_is_read (messages d ! i) \<longrightarrow> m_is_read (messages (snd (handle d r)) ! i))
        \<and> (\<not> m_is_read (messages d ! i) \<and> m_is_read (messages (snd (handle d r)) ! i) \<longrightarrow>
             (\<exists>cu other. r = GetConversation cu other
                \<and> u_id cu = m_receiver_id (messages d ! i))))
   \<and> (\<forall>i. length (messages d) \<le> i \<and> i < length (messages (snd (handle d r))) \<longrightarrow>
        \<not> m_is_read (messages (snd (handle d r)) ! i))"
proof -
  consider (send) cu now uid c where "r = SendMessage cu now uid c"
    | (conv) cu other where "r = GetConversation cu other"
    | (other) "\<And>cu now uid c. r \<noteq> SendMessage cu now uid c" "\<And>cu uid. r \<noteq> GetConversation cu uid"
    by blast
  then show ?thesis
  proof cases
    case send
    from send_message_messages [of d cu now uid c] show ?thesis
    proof
      assume "messages (snd (send_message d cu now uid c)) = messages d"
      then show ?thesis using send by auto
    next
      assume "\<exists>m. messages (snd (send_message d cu now uid c)) = messages d @ [m] \<and> \<not> m_is_read m"
      then obtain m where m: "messages (snd (send_message d cu now uid c)) = messages d @ [m]"
        "\<not> m_is_read m" by blast
      have "i = length (messages d)" if "length (messages d) \<le> i" "i < Suc (length (messages d))" for i
        using that by simp
      then show ?thesis using send m by (auto simp: nth_append)
    qed
  next
    case conv
    let ?f = "\<lambda>m. if in_conversation (u_id cu) other m then mark_read (u_id cu) m else m"
    have ms: "messages (snd (handle d r)) = map ?f (messages d)"
      using conv by (simp add: get_conversation_messages)
    have step: "?f m = m\<lparr>m_is_read := m_is_read (?f m)\<rparr>
        \<and> (m_is_read m \<longrightarrow> m_is_read (?f m))
        \<and> (\<not> m_is_read m \<and> m_is_read (?f m) \<longrightarrow> u_id cu = m_receiver_id m)" for m
      using mark_read_cases [of "u_id cu" m] by auto
    have c1: "length (messages d) \<le> length (messages (snd (handle d r)))"
      by (simp add: ms)
    have c2: "\<forall>i < length (messages d).
        messages (snd (handle d r)) ! i =
          (messages d ! i)\<lparr>m_is_read := m_is_read (messages (snd (handle d r)) ! i)\<rparr>
        \<and> (m_is_read (messages d ! i) \<longrightarrow> m_is_read (messages (snd (handle d r)) ! i))
        \<and> (\<not> m_is_read (messages d ! i) \<and> m_is_read (messages (snd (handle d r)) ! i) \<longrightarrow>
             (\<exists>cu other. r = GetConversation cu other
                \<and> u_id cu = m_receiver_id (messages d ! i)))"
    proof (intro allI impI)
      fix i assume i: "i < length (messages d)"
      then have nth: "messages (snd (handle d r)) ! i = ?f (messages d ! i)"
        by (simp add: ms)
      show "messages (snd (handle d r)) ! i =
          (messages d ! i)\<lparr>m_is_read := m_is_read (messages (snd (handle d r)) ! i)\<rparr>
        \<and> (m_is_read (messages d ! i) \<longrightarrow> m_is_read (messages (snd (handle d r)) ! i))
        \<and> (\<not> m_is_read (messages d ! i) \<and> m_is_read (messages (snd (handle d r)) ! i) \<longrightarrow>
             (\<exists>cu other. r = GetConversation cu other
                \<and> u_id cu = m_receiver_id (messages d ! i)))"
        unfolding nth using step [of "messages d ! i"] conv by blast
    qed
    have c3: "\<forall>i. length (messages d) \<le> i \<and> i < length (messages (snd (handle d r))) \<longrightarrow>
        \<not> m_is_read (messages (snd (handle d r)) ! i)"
      by (auto simp: ms)
    show ?thesis using c1 c2 c3 by blast
  next
    case other
    then have "messages (snd (handle d r)) = messages d" by (rule messages_unchanged)
    then show ?thesis by auto
  qed
qed

lemma run_is_read:
  "length (messages d) \<le> length (messages (run d rs))
   \<and> (\<forall>i < length (messages d).
        m_receiver_id (messages (run d rs) ! i) = m_receiver_id (messages d ! i)
        \<and> (m_is_read (messages d ! i) \<longrightarrow> m_is_read (messages (run d rs) ! i))
        \<and> (\<not> m_is_read (messages d ! i) \<and> m_is_read (messages (run d rs) ! i) \<longrightarrow>
             (\<exists>cu other. GetConversation cu other \<in> set rs
                \<and> u_id cu = m_receiver_id (messages d ! i))))"
proof (induction rs arbitrary: d)
  case Nil
  then show ?case by simp
next
  case (Cons r rs)
  let ?d1 = "snd (handle d r)"
  note s = handle_is_read [of d r]
  note h = Cons.IH [of ?d1]
  have len: "length (messages d) \<le> length (messages (run d (r # rs)))"
    using s h by simp
  have each: "m_receiver_id (messages (run d (r # rs)) ! i) = m_receiver_id (messages d ! i)
        \<and> (m_is_read (messages d ! i) \<longrightarrow> m_is_read (messages (run d (r # rs)) ! i))
        \<and> (\<not> m_is_read (messages d ! i) \<and> m_is_read (messages (run d (r # rs)) ! i) \<longrightarrow>
             (\<exists>cu other. GetConversation cu other \<in> set (r # rs)
                \<and> u_id cu = m_receiver_id (messages d ! i)))"
    if i: "i < length (messages d)" for i
  proof -
    from i s have i1: "i < length (messages ?d1)" by simp
    from s i have eq: "messages ?d1 ! i =
        (messages d ! i)\<lparr>m_is_read := m_is_read (messages ?d1 ! i)\<rparr>" by blast
    have rcv: "m_receiver_id (messages ?d1 ! i) = m_receiver_id (messages d ! i)"
      by (subst eq) simp
    from s i have mono: "m_is_read (messages d ! i) \<longrightarrow> m_is_read (messages ?d1 ! i)" by blast
    from s i have by1: "\<not> m_is_read (messages d ! i) \<and> m_is_read (messages ?d1 ! i) \<longrightarrow>
        (\<exists>cu other. r = GetConversation cu other \<and> u_id cu = m_receiver_id (messages d ! i))"
      by blast
    from h i1 have r2: "m_receiver_id (messages (run ?d1 rs) ! i) = m_receiver_id (messages ?d1 ! i)"
      and mono2: "m_is_read (messages ?d1 ! i) \<longrightarrow> m_is_read (messages (run ?d1 rs) ! i)"
      and by2: "\<not> m_is_read (messages ?d1 ! i) \<and> m_is_read (messages (run ?d1 rs) ! i) \<longrightarrow>
        (\<exists>cu other. GetConversation cu other \<in> set rs
           \<and> u_id cu = m_receiver_id (messages ?d1 ! i))"
      by blast+
    have "m_receiver_id (messages (run d (r # rs)) ! i) = m_receiver_id (messages d ! i)"
      using r2 rcv by simp
    moreover have "m_is_read (messages d ! i) \<longrightarrow> m_is_read (messages (run d (r # rs)) ! i)"
      using mono mono2 by simp
    moreover have "\<not> m_is_read (messages d ! i) \<and> m_is_read (messages (run d (r # rs)) ! i) \<longrightarrow>
             (\<exists>cu other. GetConversation cu other \<in> set (r # rs)
                \<and> u_id cu = m_receiver_id (messages d ! i))"
    proof (cases "m_is_read (messages ?d1 ! i)")
      case True
      then show ?thesis using by1 by auto
    next
      case False
      then show ?thesis using by2 rcv by auto
    qed
    ultimately show ?thesis by blast
  qed
  show ?case using len each by blast
qed

text \<open>
  C7. Messages are identified by their position in the table, which no endpoint
  reorders or shortens. For every request on every database: a message that is read
  stays read; a message changes in nothing but its read flag; the flag of a message
  goes from unread to read only when the request is a \<open>get_conversation\<close> whose caller
  is the receiver of the message; and every message the request adds is unread. Over
  any run of requests a read message is still read at the end, and a message that
  became read did so in a \<open>get_conversation\<close> of the run called by its receiver.
\<close>

theorem is_read_transitions:
  "(\<forall>i < length (messages d).
      messages (snd (handle d r)) ! i =
        (messages d ! i)\<lparr>m_is_read := m_is_read (messages (snd (handle d r)) ! i)\<rparr>
      \<and> (m_is_read (messages d ! i) \<longrightarrow> m_is_read (messages (snd (handle d r)) ! i))
      \<and> (\<not> m_is_read (messages d ! i) \<and> m_is_read (messages (snd (handle d r)) ! i) \<longrightarrow>
           (\<exists>cu other. r = GetConversation cu other
              \<and> u_id cu = m_receiver_id (messages d ! i))))
   \<and> length (messages d) \<le> length (messages (snd (handle d r)))
   \<and> (\<forall>i. length (messages d) \<le> i \<and> i < length (messages (snd (handle d r))) \<longrightarrow>
        \<not> m_is_read (messages (snd (handle d r)) ! i))
   \<and> length (messages d) \<le> length (messages (run d rs))
   \<and> (\<forall>i < length (messages d).
        (m_is_read (messages d ! i) \<longrightarrow> m_is_read (messages (run d rs) ! i))
        \<and> (\<not> m_is_read (messages d ! i) \<and> m_is_read (messages (run d rs) ! i) \<longrightarrow>
             (\<exists>cu other. GetConversation cu other \<in> set rs
                \<and> u_id cu = m_receiver_id (messages d ! i))))"
  using handle_is_read [of d r] run_is_read [of d rs] by blast

text \<open>
  In the scenario \<open>bob\<close> opens the conversation with \<open>alice\<close>: "hi", which he received,
  becomes read, and "yo", which he sent, stays unread; when \<open>alice\<close> opens it first,
  "hi" stays unread. A message sent afterwards is unread, and "hi" stays read.
\<close>

theorem is_read_transitions_witness:
  "(0::nat) < length (messages chat_db)
   \<and> \<not> m_is_read (messages chat_db ! 0)
   \<and> m_is_read (messages (snd (handle chat_db (GetConversation bob 1))) ! 0)
   \<and> \<not> m_is_read (messages (snd (handle chat_db (GetConversation bob 1))) ! 1)
   \<and> u_id bob = m_receiver_id (messages chat_db ! 0)
   \<and> \<not> m_is_read (messages (snd (handle chat_db (GetConversation alice 2))) ! 0)
   \<and> m_is_read (messages (run chat_db [GetConversation bob 1, SendMessage bob 70 1 ''ok'']) ! 0)
   \<and> \<not> m_is_read (messages (run chat_db [GetConversation bob 1, SendMessage bob 70 1 ''ok'']) ! 2)"
  using is_read_transitions [of chat_db "GetConversation bob 1"
      "[GetConversation bob 1, SendMessage bob 70 1 ''ok'']"]
  by (simp add: chat_db_def hi_message_def yo_message_def scenario_db_def init_db_def
      get_conversation_def send_message_def in_conversation_def mark_read_def
      find_user_by_id_def next_id_def alice_def bob_def Let_def)

subsection \<open>The timestamps of a post\<close>









subsection \<open>Reading a conversation\<close>

text \<open>
  Shaping a message reads \<open>self.sender\<close> and, in the sender's \<open>to_dict\<close>, the
  relationship \<open>followers\<close>, so it raises for every message; the list comprehension
  of an endpoint gives a list only when there is no row to shape.
\<close>

lemma message_to_dict_raises: "message_to_dict d m = Inl MissingGreenlet"
  by (simp add: message_to_dict_def related_user_dict_def lazy_load_def)

lemma collect_raises:
  "(\<And>x. f x = Inl e) \<Longrightarrow> collect (map f rows) = (if rows = [] then Inr [] else Inl e)"
  by (cases rows) simp_all

lemma get_conversation_outcome:
  "get_conversation d current_user user_id =
     ((if filter (in_conversation (u_id current_user) user_id) (messages d) = []
       then Inr (MessagesR []) else Inl MissingGreenlet),
      d\<lparr>messages := map (\<lambda>m. if in_conversation (u_id current_user) user_id m
                              then mark_read (u_id current_user) m else m) (messages d)\<rparr>)"
proof -
  let ?rows = "filter (in_conversation (u_id current_user) user_id) (messages d)"
  have e: "order_by_asc m_created_at ?rows = [] \<longleftrightarrow> ?rows = []"
    by (metis set_order_by_asc set_empty)
  show ?thesis
    unfolding get_conversation_def Let_def
    by (simp add: collect_raises [of _ MissingGreenlet] message_to_dict_raises e
        del: filter_False)
qed

text \<open>
  C6, at the scenario: after "hi" from \<open>alice\<close> to \<open>bob\<close> and "yo" from \<open>bob\<close> to
  \<open>alice\<close>, \<open>bob\<close> reads the conversation with \<open>alice\<close>. The query selects the two
  messages, oldest first, and the loop marks "hi" as read and commits; then the
  shaping of the first message raises \<open>MissingGreenlet\<close>, so the request answers
  the exception and not the list of the two messages.
\<close>

theorem get_conversation_missing_greenlet:
  "run scenario_db [SendMessage alice 50 2 ''hi'', SendMessage bob 60 1 ''yo''] = chat_db
   \<and> order_by_asc m_created_at (filter (in_conversation (u_id bob) 1) (messages chat_db))
       = [hi_message, yo_message]
   \<and> fst (get_conversation chat_db bob 1) = Inl MissingGreenlet
   \<and> messages (snd (get_conversation chat_db bob 1))
       = [hi_message\<lparr>m_is_read := True\<rparr>, yo_message]"
  by (simp add: chat_db_def hi_message_def yo_message_def scenario_db_def init_db_def
      send_message_def get_conversation_def in_conversation_def mark_read_def
      order_by_asc_def message_to_dict_def related_user_dict_def lazy_load_def
      find_user_by_id_def next_id_def alice_def bob_def Let_def)

subsection \<open>Searching posts\<close>

text \<open>\<open>contains\<close> is the occurrence of one text inside another.\<close>

lemma contains_iff: "contains q s \<longleftrightarrow> (\<exists>xs ys. s = xs @ q @ ys)"
proof (induction s)
  case Nil
  then show ?case by auto
next
  case (Cons c cs)
  show ?case
  proof
    assume "contains q (c # cs)"
    then consider "take (length q) (c # cs) = q" | "contains q cs" by auto
    then show "\<exists>xs ys. c # cs = xs @ q @ ys"
    proof cases
      case 1
      then have "c # cs = [] @ q @ drop (length q) (c # cs)"
        by (metis append_Nil append_take_drop_id)
      then show ?thesis by blast
    next
      case 2
      then obtain xs ys where "cs = xs @ q @ ys" using Cons.IH by blast
      then have "c # cs = (c # xs) @ q @ ys" by simp
      then show ?thesis by blast
    qed
  next
    assume "\<exists>xs ys. c # cs = xs @ q @ ys"
    then obtain xs ys where e: "c # cs = xs @ q @ ys" by blast
    show "contains q (c # cs)"
    proof (cases xs)
      case Nil
      with e have "take (length q) (c # cs) = q" by simp
      then show ?thesis by simp
    next
      case (Cons x xs')
      with e have "cs = xs' @ q @ ys" by simp
      then have "contains q cs" using Cons.IH by blast
      then show ?thesis by simp
    qed
  qed
qed

text \<open>
  A pattern without wildcards between two \<open>%\<close> matches exactly the texts that
  contain it, and folding the case brings no wildcard into a query.
\<close>

lemma like_percent: "like [CHR ''%''] s"
  by (induction s) simp_all

lemma like_literal_percent:
  "wildcard_free q \<Longrightarrow> like (q @ [CHR ''%'']) s \<longleftrightarrow> take (length q) s = q"
proof (induction q arbitrary: s)
  case Nil
  then show ?case by (simp add: like_percent)
next
  case (Cons a q)
  then have a: "a \<noteq> CHR ''%''" "a \<noteq> CHR ''_''" and q: "wildcard_free q"
    by (auto simp: wildcard_free_def)
  show ?case
  proof (cases s)
    case Nil
    then show ?thesis using a by simp
  next
    case (Cons c cs)
    then show ?thesis using a Cons.IH [OF q, of cs] by auto
  qed
qed

lemma like_contains:
  "wildcard_free q \<Longrightarrow> like (CHR ''%'' # q @ [CHR ''%'']) s \<longleftrightarrow> contains q s"
proof (induction s)
  case Nil
  then show ?case using like_literal_percent [of q "[]"] by auto
next
  case (Cons c cs)
  then show ?case using like_literal_percent [of q "c # cs"] by auto
qed

lemma upper_shift:
  fixes n :: nat
  assumes "65 \<le> n" "n \<le> 90"
  shows "char_of (n + 32) \<noteq> CHR ''%''" and "char_of (n + 32) \<noteq> CHR ''_''"
proof -
  have m: "(n + 32) mod 256 = n + 32" using assms by simp
  show "char_of (n + 32) \<noteq> CHR ''%''"
  proof
    assume "char_of (n + 32) = CHR ''%''"
    then have "(of_char (char_of (n + 32)) :: nat) = of_char CHR ''%''" by simp
    then show False using assms m by simp
  qed
  show "char_of (n + 32) \<noteq> CHR ''_''"
  proof
    assume "char_of (n + 32) = CHR ''_''"
    then have "(of_char (char_of (n + 32)) :: nat) = of_char CHR ''_''" by simp
    then show False using assms m by simp
  qed
qed

lemma lower_char_percent: "lower_char c = CHR ''%'' \<longleftrightarrow> c = CHR ''%''"
  using upper_shift [of "of_char c"] by (auto simp: lower_char_def Let_def)

lemma lower_char_underscore: "lower_char c = CHR ''_'' \<longleftrightarrow> c = CHR ''_''"
  using upper_shift [of "of_char c"] by (auto simp: lower_char_def Let_def)

lemma wildcard_free_lower: "wildcard_free q \<Longrightarrow> wildcard_free (lower q)"
proof -
  assume q: "wildcard_free q"
  have "CHR ''%'' \<notin> set (lower q)"
  proof
    assume "CHR ''%'' \<in> set (lower q)"
    then obtain c where "c \<in> set q" "lower_char c = CHR ''%''" by (auto simp: lower_def)
    then show False using q by (simp add: lower_char_percent wildcard_free_def)
  qed
  moreover have "CHR ''_'' \<notin> set (lower q)"
  proof
    assume "CHR ''_'' \<in> set (lower q)"
    then obtain c where "c \<in> set q" "lower_char c = CHR ''_''" by (auto simp: lower_def)
    then show False using q by (simp add: lower_char_underscore wildcard_free_def)
  qed
  ultimately show ?thesis by (simp add: wildcard_free_def)
qed

lemma lower_pattern: "lower (CHR ''%'' # q @ [CHR ''%'']) = CHR ''%'' # lower q @ [CHR ''%'']"
  by (simp add: lower_def lower_char_percent)

lemma ilike_icontains:
  "wildcard_free q \<Longrightarrow> ilike s (CHR ''%'' # q @ [CHR ''%'']) \<longleftrightarrow> icontains q s"
  unfolding ilike_def icontains_def lower_pattern
  by (rule like_contains) (rule wildcard_free_lower)

lemma sorted_page:
  fixes f :: "'a \<Rightarrow> int"
  assumes "sorted (map f rows)"
  shows "sorted (map f (page skip limit rows))"
proof -
  have "sorted (take limit (drop skip (map f rows)))"
    using assms by (intro sorted_wrt_take sorted_wrt_drop)
  then show ?thesis by (simp add: page_def take_map drop_map)
qed

lemma hel_rows: "search_posts_rows scenario_db ''hel'' 0 20 = [hello_post]"
  by code_simp

lemma hel_hello: "icontains ''hel'' ''Hello''"
  by code_simp

text \<open>
  C9, as stated, fails on a query with a wildcard: for the query \<open>_\<close> the search
  selects the post titled "Hello", although neither its title nor its content
  contains an underscore, and the answer is not the empty list.
\<close>

theorem search_wildcard_counterexample:
  "search_posts_rows scenario_db ''_'' 0 20 = [hello_post]
   \<and> \<not> icontains ''_'' (p_title hello_post)
   \<and> \<not> icontains ''_'' (p_content hello_post)
   \<and> fst (search scenario_db alice ''_'' ''posts'' 0 20) \<noteq> Inr (PostsR [])"
  by code_simp

text \<open>
  C9, as the code has it. For a query \<open>q\<close> without \<open>%\<close> and \<open>_\<close>, the query of
  \<open>search\<close> selects the page (\<open>skip\<close>, \<open>limit\<close>) of the posts whose title or content
  contains \<open>q\<close> when the case of ASCII letters is ignored, ordered newest
  \<open>created_at\<close> first: every selected post is such a post, the selected posts
  descend in \<open>created_at\<close>, and when the page is as long as the table they are
  exactly these posts.
\<close>

theorem search_posts_selects:
  assumes "wildcard_free q"
  shows "search_posts_rows d q skip limit =
           page skip limit
             (order_by_desc p_created_at
                (filter (\<lambda>p. icontains q (p_title p) \<or> icontains q (p_content p)) (posts d)))
       \<and> sorted (map (\<lambda>p. - p_created_at p) (search_posts_rows d q skip limit))
       \<and> set (search_posts_rows d q skip limit)
           \<subseteq> {p \<in> set (posts d). icontains q (p_title p) \<or> icontains q (p_content p)}
       \<and> (length (posts d) \<le> limit \<longrightarrow>
            set (search_posts_rows d q 0 limit)
              = {p \<in> set (posts d). icontains q (p_title p) \<or> icontains q (p_content p)})"
proof -
  let ?m = "\<lambda>p. icontains q (p_title p) \<or> icontains q (p_content p)"
  let ?rows = "order_by_desc p_created_at (filter ?m (posts d))"
  have eq: "search_posts_rows d q skip limit = page skip limit ?rows" for skip limit
    by (simp add: search_posts_rows_def ilike_icontains [OF assms])
  have "sorted (map (\<lambda>p. - p_created_at p) ?rows)"
    by (simp add: order_by_desc_def)
  then have srt: "sorted (map (\<lambda>p. - p_created_at p) (page skip limit ?rows))"
    by (rule sorted_page)
  have sub: "set (page skip limit ?rows) \<subseteq> {p \<in> set (posts d). ?m p}"
    using set_page [of skip limit ?rows] by auto
  have all: "set (page 0 limit ?rows) = {p \<in> set (posts d). ?m p}"
    if "length (posts d) \<le> limit"
  proof -
    have "length ?rows \<le> length (posts d)" by (simp add: order_by_desc_def)
    with that have "page 0 limit ?rows = ?rows" by (simp add: page_def)
    then show ?thesis by simp
  qed
  show ?thesis unfolding eq using srt sub all by blast
qed

text \<open>The scenario: the query \<open>hel\<close> selects the post titled "Hello".\<close>

theorem search_posts_selects_witness:
  "wildcard_free ''hel''
   \<and> icontains ''hel'' ''Hello''
   \<and> page 0 20 (order_by_desc p_created_at
        (filter (\<lambda>p. icontains ''hel'' (p_title p) \<or> icontains ''hel'' (p_content p))
           (posts scenario_db))) = [hello_post]"
proof -
  have w: "wildcard_free ''hel''" by (simp add: wildcard_free_def)
  have "page 0 20 (order_by_desc p_created_at
        (filter (\<lambda>p. icontains ''hel'' (p_title p) \<or> icontains ''hel'' (p_content p))
           (posts scenario_db))) = search_posts_rows scenario_db ''hel'' 0 20"
    using search_posts_selects [OF w, of scenario_db 0 20] by simp
  then show ?thesis using w hel_rows hel_hello by simp
qed

end
